theory Spec2Isabelle
  imports Complex_Main "HOL-Library.AList"
begin

section \<open>Utils.reliable: retry with exponential backoff\<close>

text \<open>
  \<^verbatim>\<open>Utils.reliable\<close> wraps a method \<^verbatim>\<open>func\<close>. The wrapped method is an operation on
  the outside world (a table scan), so it is a function from a world \<open>'w\<close> to its result
  and the next world; \<^verbatim>\<open>None\<close> is the result \<open>None\<close>. The one method the program
  wraps, \<^verbatim>\<open>getSecurities\<close>, catches every exception and returns, so the wrapped
  operation is taken to return. What the wrapper does besides returning, one invocation of
  \<^verbatim>\<open>func\<close> or one \<^verbatim>\<open>time.sleep\<close>, is recorded in order.
\<close>

datatype retry_event = Invoked | Slept nat

type_synonym ('w, 'a) operation = "'w \<Rightarrow> 'a option \<times> 'w"

text \<open>
  The loop \<^verbatim>\<open>while result is None and tries < 10\<close>, entered with the current
  \<^verbatim>\<open>result\<close> and \<^verbatim>\<open>tries\<close>.
\<close>

function reliable_loop ::
  "('w, 'a) operation \<Rightarrow> 'a option \<Rightarrow> nat \<Rightarrow> 'w \<Rightarrow> retry_event list
    \<Rightarrow> 'a option \<times> 'w \<times> retry_event list" where
  "reliable_loop func result tries w tr =
     (if result = None \<and> tries < 10 then
        reliable_loop func (fst (func w)) (tries + 1) (snd (func w))
          (tr @ [Slept (2 ^ (tries + 1)), Invoked])
      else (result, w, tr))"
  by pat_completeness auto
termination
  by (relation "measure (\<lambda>(func, result, tries, w, tr). 10 - tries)") auto

definition reliable :: "('w, 'a) operation \<Rightarrow> 'w \<Rightarrow> 'a option \<times> 'w \<times> retry_event list" where
  "reliable func w =
     (let result = fst (func w); w1 = snd (func w) in
      if result = None then reliable_loop func result 0 w1 [Invoked]
      else (result, w1, [Invoked]))"

text \<open>Reading a record of the wrapper's run: how often it invoked, how long it slept.\<close>

fun invocations :: "retry_event list \<Rightarrow> nat" where
  "invocations [] = 0"
| "invocations (Invoked # tr) = Suc (invocations tr)"
| "invocations (Slept d # tr) = invocations tr"

fun slept :: "retry_event list \<Rightarrow> nat list" where
  "slept [] = []"
| "slept (Invoked # tr) = slept tr"
| "slept (Slept d # tr) = d # slept tr"

text \<open>
  The behaviour of a wrapped operation from a world on: the world after \<open>n\<close> invocations,
  and the result of invocation \<open>i + 1\<close>.
\<close>

fun after_calls :: "('w, 'a) operation \<Rightarrow> nat \<Rightarrow> 'w \<Rightarrow> 'w" where
  "after_calls func 0 w = w"
| "after_calls func (Suc n) w = after_calls func n (snd (func w))"

definition nth_result :: "('w, 'a) operation \<Rightarrow> 'w \<Rightarrow> nat \<Rightarrow> 'a option" where
  "nth_result func w i = fst (func (after_calls func i w))"

text \<open>A stub that counts its invocations and answers from a fixed script.\<close>

definition stub :: "(nat \<Rightarrow> 'a option) \<Rightarrow> (nat, 'a) operation" where
  "stub answers n = (answers n, Suc n)"

text \<open>The two stubs of the retry properties: absent \<open>k\<close> times and then a value; absent always.\<close>

definition absent_then :: "nat \<Rightarrow> 'a \<Rightarrow> (nat, 'a) operation" where
  "absent_then k v = stub (\<lambda>n. if n < k then None else Some v)"

definition always_absent :: "(nat, unit) operation" where
  "always_absent = stub (\<lambda>n. None)"

section \<open>IbApp: state, effects and errors\<close>

text \<open>
  \<^verbatim>\<open>ibapi.contract.Contract\<close>, with the fields this program reads or writes; the
  constructor leaves each of them the empty string. \<^verbatim>\<open>ContractDetails\<close> carries the
  server's contract as \<^verbatim>\<open>summary\<close> and a \<^verbatim>\<open>marketName\<close>.
\<close>

record contract =
  symbol :: string
  secType :: string
  exchange :: string
  tradingClass :: string
  lastTradeDateOrContractMonth :: string
  localSymbol :: string

definition Contract :: contract where
  "Contract = \<lparr>symbol = '''', secType = '''', exchange = '''', tradingClass = '''',
     lastTradeDateOrContractMonth = '''', localSymbol = ''''\<rparr>"

record ContractDetails =
  summary :: contract
  marketName :: string

text \<open>
  \<^verbatim>\<open>BarData\<close>. Prices are Python floats that the handlers only pass on, never compute
  with; they are kept as real numbers.
\<close>

record BarData =
  date :: string
  open' :: real
  high :: real
  low :: real
  close :: real
  volume :: int
  barCount :: int

text \<open>
  One item of the securities table, with the keys \<^verbatim>\<open>start\<close> reads:
  \<^verbatim>\<open>sec['SubscriptionEnabled']\<close>, \<^verbatim>\<open>sec['Symbol']\<close>, \<^verbatim>\<open>sec['ProductType']\<close> and
  \<^verbatim>\<open>sec['Description']['Exchange']\<close>.
\<close>

record security =
  SubscriptionEnabled :: bool
  Symbol :: string
  ProductType :: string
  Exchange :: string

text \<open>
  The attributes of \<^verbatim>\<open>IbApp\<close> set in \<^verbatim>\<open>__init__\<close>. A Python dict keeps its keys in
  insertion order and \<^verbatim>\<open>verify\<close> iterates over dicts, so a dict is an association list:
  \<^verbatim>\<open>d[k] = v\<close> is \<open>AList.update k v d\<close> (in place for a key present, at the end
  otherwise), \<^verbatim>\<open>del d[k]\<close> is \<open>AList.delete k d\<close>, \<^verbatim>\<open>d[k]\<close> and \<^verbatim>\<open>k in d\<close> read
  \<open>map_of d k\<close>. The two counters are \<^verbatim>\<open>None\<close> until \<^verbatim>\<open>nextValidId\<close> sets them;
  Python's integers are unbounded.
\<close>

record ibapp =
  subRealMD :: bool
  subHistMD :: bool
  nextValidOrderId :: "int option"
  nextValidReqId :: "int option"
  requestedContracts :: "(int \<times> contract) list"
  requestedMarketData :: "(int \<times> contract) list"
  requestedHistoricalData :: "(int \<times> contract) list"
  marketDataLookup :: "(int \<times> string) list"
  historicalLookup :: "(int \<times> string) list"

definition IbApp :: "bool \<Rightarrow> bool \<Rightarrow> ibapp" where
  "IbApp real' hist = \<lparr>subRealMD = real', subHistMD = hist,
     nextValidOrderId = None, nextValidReqId = None,
     requestedContracts = [], requestedMarketData = [], requestedHistoricalData = [],
     marketDataLookup = [], historicalLookup = []\<rparr>"

text \<open>
  What a handler does to the outside, in order: a line given to \<^verbatim>\<open>self.Logger\<close> (its
  level, its fixed text and the values placed in it), the default \<^verbatim>\<open>EWrapper\<close> method
  reached through \<^verbatim>\<open>super()\<close> (it only logs the answer), a request sent through
  \<^verbatim>\<open>EClient\<close> with the arguments of the call, and the \<^verbatim>\<open>update_item\<close> call on the
  quotes table. The logger and the client are taken to return.
\<close>

datatype level = INFO | DEBUG | WARNING | ERROR

datatype arg = AInt int | AStr string | ABool bool | AFloat real | AContract contract | ANow

datatype effect =
    Log level string "arg list"
  | EWrapperAnswer string
  | ReqCurrentTime
  | ReqContractDetails int contract
  | ReqMktData int contract string bool bool "string list"
  | ReqHistoricalData int contract string string string string int int bool "string list"
  | UpdateItem string string real real real real int int

datatype error = KeyError | TypeError

text \<open>
  A call ends by returning or by raising; either way the attributes are as the call left
  them and the effects are those performed up to that point.
\<close>

type_synonym 'a result = "(error + 'a) \<times> ibapp \<times> effect list"

section \<open>IbApp: the request-id allocator\<close>

text \<open>
  \<^verbatim>\<open>reqId = self.nextValidReqId; self.nextValidReqId += 1; return reqId\<close>. On a counter
  still \<^verbatim>\<open>None\<close> the increment raises \<^verbatim>\<open>TypeError\<close> and assigns nothing.
\<close>

definition nextReqId :: "ibapp \<Rightarrow> (error + int) \<times> ibapp" where
  "nextReqId s =
     (case nextValidReqId s of
        None \<Rightarrow> (Inl TypeError, s)
      | Some reqId \<Rightarrow> (Inr reqId, s\<lparr>nextValidReqId := Some (reqId + 1)\<rparr>))"

definition nextOrderId :: "ibapp \<Rightarrow> (error + int) \<times> ibapp" where
  "nextOrderId s =
     (case nextValidOrderId s of
        None \<Rightarrow> (Inl TypeError, s)
      | Some orderId \<Rightarrow> (Inr orderId, s\<lparr>nextValidOrderId := Some (orderId + 1)\<rparr>))"

text \<open>\<open>n\<close> calls of the allocator in a row, with the ids they returned, in order.\<close>

fun allocate :: "nat \<Rightarrow> ibapp \<Rightarrow> (error + int list) \<times> ibapp" where
  "allocate 0 s = (Inr [], s)"
| "allocate (Suc n) s =
     (case nextReqId s of
        (Inl e, s1) \<Rightarrow> (Inl e, s1)
      | (Inr reqId, s1) \<Rightarrow>
          (case allocate n s1 of
             (Inl e, s2) \<Rightarrow> (Inl e, s2)
           | (Inr reqIds, s2) \<Rightarrow> (Inr (reqId # reqIds), s2)))"

section \<open>IbApp: bootstrap and resync\<close>

text \<open>The contract \<^verbatim>\<open>start\<close> builds for one enabled item of the securities table.\<close>

definition start_contract :: "security \<Rightarrow> contract" where
  "start_contract sec =
     (let contract = Contract\<lparr>symbol := Symbol sec, secType := ProductType sec,
                               exchange := Exchange sec\<rparr>
      in if secType contract = ''FUT'' then contract\<lparr>tradingClass := Symbol sec\<rparr>
         else contract)"

text \<open>The loop \<^verbatim>\<open>for sec in items\<close> of \<^verbatim>\<open>start\<close>.\<close>

fun start_loop :: "security list \<Rightarrow> ibapp \<Rightarrow> effect list \<Rightarrow> unit result" where
  "start_loop [] s fx = (Inr (), s, fx)"
| "start_loop (sec # items) s fx =
     (if SubscriptionEnabled sec then
        (case nextReqId s of
           (Inl e, s1) \<Rightarrow> (Inl e, s1, fx)
         | (Inr rId, s1) \<Rightarrow>
             start_loop items
               (s1\<lparr>requestedContracts :=
                     AList.update rId (start_contract sec) (requestedContracts s1)\<rparr>)
               (fx @ [ReqContractDetails rId (start_contract sec)]))
      else start_loop items s fx)"

text \<open>
  \<^verbatim>\<open>start\<close>, given what \<^verbatim>\<open>self.getSecurities()\<close> returned: the items of the table, or
  \<^verbatim>\<open>None\<close> when the scan gave nothing through every retry; iterating over \<^verbatim>\<open>None\<close>
  raises \<^verbatim>\<open>TypeError\<close>.
\<close>

definition start :: "security list option \<Rightarrow> ibapp \<Rightarrow> unit result" where
  "start items s =
     (let fx = [Log INFO ''start for read data %s and historical %s''
                  [ABool (subRealMD s), ABool (subHistMD s)]]
      in case items of
           None \<Rightarrow> (Inl TypeError, s, fx)
         | Some secs \<Rightarrow> start_loop secs s fx)"

definition nextValidId :: "int \<Rightarrow> security list option \<Rightarrow> ibapp \<Rightarrow> unit result" where
  "nextValidId orderId items s =
     (let fx = [EWrapperAnswer ''nextValidId'',
                Log INFO ''setting nextValidOrderId: %d'' [AInt orderId]];
          s1 = s\<lparr>nextValidOrderId := Some orderId, nextValidReqId := Some orderId\<rparr>
      in case start items s1 of (r, s2, fx2) \<Rightarrow> (r, s2, fx @ fx2))"

definition verify :: "ibapp \<Rightarrow> unit result" where
  "verify s =
     (Inr (), s,
      [Log INFO ''requesting server time'' [], ReqCurrentTime]
      @ concat (map (\<lambda>(key, value).
            [ReqContractDetails key value,
             Log INFO ''re-requesting contract details for: %s'' [AStr (symbol value)]])
          (requestedContracts s))
      @ (if subHistMD s then
           concat (map (\<lambda>(key, value).
             [ReqHistoricalData key value '''' ''2 D'' ''1 day'' ''TRADES'' 1 1 False
                [''X'', ''Y'', ''Z''],
              Log INFO ''re-requesting Historical Data for: %s'' [AStr (symbol value)]])
           (requestedHistoricalData s))
         else [])
      @ (if subRealMD s then
           concat (map (\<lambda>(key, value).
             [ReqMktData key value '''' True False [],
              Log INFO ''re-requesting Market Data for: %s'' [AStr (symbol value)]])
           (requestedMarketData s))
         else []))"

text \<open>The request ids of the market-data and of the historical requests among effects.\<close>

fun mktDataReqIds :: "effect list \<Rightarrow> int list" where
  "mktDataReqIds [] = []"
| "mktDataReqIds (ReqMktData reqId c g snap reg opts # fx) = reqId # mktDataReqIds fx"
| "mktDataReqIds (e # fx) = mktDataReqIds fx"

fun histDataReqIds :: "effect list \<Rightarrow> int list" where
  "histDataReqIds [] = []"
| "histDataReqIds (ReqHistoricalData reqId c e d b w u f k opts # fx) = reqId # histDataReqIds fx"
| "histDataReqIds (e # fx) = histDataReqIds fx"

section \<open>IbApp: the reply handlers\<close>

text \<open>The block \<^verbatim>\<open>if self.__subRealMD:\<close> of \<^verbatim>\<open>contractDetails\<close>.\<close>

definition contractDetails_real :: "contract \<Rightarrow> contract \<Rightarrow> ibapp \<Rightarrow> unit result" where
  "contractDetails_real contract validated s =
     (if subRealMD s then
        (case nextReqId s of
           (Inl e, s1) \<Rightarrow> (Inl e, s1, [])
         | (Inr cId, s1) \<Rightarrow>
             (Inr (),
              s1\<lparr>marketDataLookup :=
                    AList.update cId (localSymbol validated) (marketDataLookup s1),
                  requestedMarketData :=
                    AList.update cId validated (requestedMarketData s1)\<rparr>,
              [ReqMktData cId contract '''' True False []]))
      else (Inr (), s, []))"

text \<open>The block \<^verbatim>\<open>if self.__subHistMD:\<close> of \<^verbatim>\<open>contractDetails\<close>.\<close>

definition contractDetails_hist :: "contract \<Rightarrow> ibapp \<Rightarrow> unit result" where
  "contractDetails_hist validated s =
     (if subHistMD s then
        (case nextReqId s of
           (Inl e, s1) \<Rightarrow> (Inl e, s1, [])
         | (Inr hId, s1) \<Rightarrow>
             (Inr (),
              s1\<lparr>historicalLookup :=
                    AList.update hId (localSymbol validated) (historicalLookup s1),
                  requestedHistoricalData :=
                    AList.update hId validated (requestedHistoricalData s1)\<rparr>,
              [ReqHistoricalData hId validated '''' ''2 D'' ''1 day'' ''TRADES'' 1 1 False
                 [''X'', ''Y'', ''Z'']]))
      else (Inr (), s, []))"

text \<open>The contract \<^verbatim>\<open>validated\<close> that \<^verbatim>\<open>contractDetails\<close> builds from the reply.\<close>

definition validated_contract :: "ContractDetails \<Rightarrow> contract" where
  "validated_contract cd =
     Contract\<lparr>symbol := symbol (summary cd),
              secType := secType (summary cd),
              exchange := exchange (summary cd),
              tradingClass := tradingClass (summary cd),
              lastTradeDateOrContractMonth := lastTradeDateOrContractMonth (summary cd),
              localSymbol := localSymbol (summary cd)\<rparr>"

definition contractDetails :: "int \<Rightarrow> ContractDetails \<Rightarrow> ibapp \<Rightarrow> unit result" where
  "contractDetails reqId cd s =
     (let fx = [EWrapperAnswer ''contractDetails'',
                Log INFO ''contractDetails received %s '' [AContract (summary cd)]]
      in case map_of (requestedContracts s) reqId of
           None \<Rightarrow>
             (Inr (), s, fx @ [Log WARNING ''Unknown contractDetails reqId: %s'' [AInt reqId]])
         | Some contract \<Rightarrow>
             if symbol contract = symbol (summary cd) \<or> symbol contract = marketName cd then
               (case contractDetails_real contract (validated_contract cd) s of
                  (Inl e, s1, fx1) \<Rightarrow> (Inl e, s1, fx @ fx1)
                | (Inr u, s1, fx1) \<Rightarrow>
                    (case contractDetails_hist (validated_contract cd) s1 of
                       (r, s2, fx2) \<Rightarrow> (r, s2, fx @ fx1 @ fx2)))
             else
               (Inr (), s,
                fx @ [Log WARNING ''Unknown contract received %s'' [AContract (summary cd)]]))"

definition contractDetailsEnd :: "int \<Rightarrow> ibapp \<Rightarrow> unit result" where
  "contractDetailsEnd reqId s =
     (Inr (),
      (if map_of (requestedContracts s) reqId \<noteq> None
       then s\<lparr>requestedContracts := AList.delete reqId (requestedContracts s)\<rparr>
       else s),
      [EWrapperAnswer ''contractDetailsEnd'', Log INFO ''ContractDetailsEnd. %s'' [AInt reqId]])"

text \<open>
  \<^verbatim>\<open>UpdateQuote\<close> calls \<^verbatim>\<open>update_item\<close> on the quotes table and catches whatever the
  call raises; what the table answered is a parameter.
\<close>

datatype db_result = Updated string | ClientError string | OtherException string

definition UpdateQuote ::
  "db_result \<Rightarrow> string \<Rightarrow> string \<Rightarrow> real \<Rightarrow> real \<Rightarrow> real \<Rightarrow> real \<Rightarrow> int \<Rightarrow> int \<Rightarrow> effect list" where
  "UpdateQuote db sym' dat opn cls hi lo vol cnt =
     UpdateItem sym' dat opn cls hi lo vol cnt #
     (case db of
        Updated response \<Rightarrow> [Log DEBUG response []]
      | ClientError msg \<Rightarrow> [Log ERROR msg []]
      | OtherException msg \<Rightarrow> [Log ERROR msg []])"

text \<open>
  \<^verbatim>\<open>historicalData\<close> has no \<^verbatim>\<open>super()\<close> call; its first statement is the subscript
  \<^verbatim>\<open>self.historicalLookup[reqId]\<close>.
\<close>

definition historicalData :: "db_result \<Rightarrow> int \<Rightarrow> BarData \<Rightarrow> ibapp \<Rightarrow> unit result" where
  "historicalData db reqId bar s =
     (case map_of (historicalLookup s) reqId of
        None \<Rightarrow> (Inl KeyError, s, [])
      | Some sym' \<Rightarrow>
          (Inr (),
           (if map_of (requestedHistoricalData s) reqId \<noteq> None
            then s\<lparr>requestedHistoricalData := AList.delete reqId (requestedHistoricalData s)\<rparr>
            else s),
           Log INFO
             ''HistoricalData. %s Date: %s Open: %s High: %s Low: %s Close: %s Volume: %s Count: %s''
             [AStr sym', AStr (date bar), AFloat (open' bar), AFloat (high bar), AFloat (low bar),
              AFloat (close bar), AInt (volume bar), AInt (barCount bar)]
           # UpdateQuote db sym' (date bar) (open' bar) (close bar) (high bar) (low bar)
               (volume bar) (barCount bar)))"

definition historicalDataEnd :: "int \<Rightarrow> string \<Rightarrow> string \<Rightarrow> ibapp \<Rightarrow> unit result" where
  "historicalDataEnd reqId start_str end_str s =
     (Inr (), s,
      [EWrapperAnswer ''historicalDataEnd'',
       Log INFO ''HistoricalDataEnd %s from %s to %s'' [AInt reqId, AStr start_str, AStr end_str]])"

text \<open>
  \<^verbatim>\<open>tickPrice\<close> and \<^verbatim>\<open>tickSize\<close>. The argument \<^verbatim>\<open>attrib\<close> is never read and is
  left out; the tick type is the integer handed to \<^verbatim>\<open>TickTypeEnum.to_str\<close>, and \<open>ANow\<close>
  stands for the clock reading placed in the log line.
\<close>

definition tickPrice :: "int \<Rightarrow> int \<Rightarrow> real \<Rightarrow> ibapp \<Rightarrow> unit result" where
  "tickPrice tickerId tickType price s =
     (case map_of (marketDataLookup s) tickerId of
        None \<Rightarrow> (Inl KeyError, s, [])
      | Some sym' \<Rightarrow>
          (Inr (),
           (if map_of (requestedMarketData s) tickerId \<noteq> None
            then s\<lparr>requestedMarketData := AList.delete tickerId (requestedMarketData s)\<rparr>
            else s),
           [Log INFO ''%s %s %s %s IB'' [ANow, AStr sym', AInt tickType, AFloat price]]))"

definition tickSize :: "int \<Rightarrow> int \<Rightarrow> int \<Rightarrow> ibapp \<Rightarrow> unit result" where
  "tickSize tickerId tickType sz s =
     (case map_of (marketDataLookup s) tickerId of
        None \<Rightarrow> (Inl KeyError, s, [])
      | Some sym' \<Rightarrow>
          (Inr (), s, [Log INFO ''%s %s %s %s IB'' [ANow, AStr sym', AInt tickType, AInt sz]]))"

text \<open>The contracts of the contract-details requests among effects, in order.\<close>

fun contractDetailsReqs :: "effect list \<Rightarrow> contract list" where
  "contractDetailsReqs [] = []"
| "contractDetailsReqs (ReqContractDetails reqId c # fx) = c # contractDetailsReqs fx"
| "contractDetailsReqs (e # fx) = contractDetailsReqs fx"

section \<open>InterruptableClient.runnable: the message loop\<close>

text \<open>
  The loop of \<^verbatim>\<open>runnable\<close> is driven from outside the program: by the queue that another
  thread fills, the connection, the decoder, the clock and the operator. A run is described
  by what they did, turn by turn. At the head of a turn the loop condition is false
  (\<open>Stop\<close>) or true; then \<^verbatim>\<open>msg_queue.get\<close> returns a text that is too long
  (\<open>Oversized\<close>), returns a text that is decoded and interpreted (\<open>Frame\<close>, with the
  exception this raised, if any), raises \<^verbatim>\<open>queue.Empty\<close> (\<open>Empty\<close>, with whether the
  last stamp is more than 30 seconds old and what the call \<^verbatim>\<open>func()\<close> raised, if made and
  if any), or raises something else (\<open>GetRaised\<close>). An exception is
  \<^verbatim>\<open>KeyboardInterrupt\<close> or \<^verbatim>\<open>SystemExit\<close> (\<open>Interrupt\<close>, with whether
  \<^verbatim>\<open>keyboardInterruptHard\<close> raises in its turn when the handler calls it),
  \<^verbatim>\<open>BadMessage\<close>, or any other. Calls of the \<^verbatim>\<open>logging\<close> module are left out; the
  calls recorded are taken to return unless the turn says that they raise.
\<close>

datatype raised = Interrupt bool | BadMessage | Other

datatype iteration =
    Oversized
  | Frame "raised option"
  | Empty bool "raised option"
  | GetRaised raised

datatype turn = Stop | Turn iteration

datatype loop_effect =
    WrapperError
  | Disconnect
  | ConnDisconnect
  | Decode
  | Func
  | KeyboardInterrupt
  | KeyboardInterruptHard

datatype flow = Continue | Break | Propagate

datatype exit = Finished | Broke | Raised

text \<open>
  The \<^verbatim>\<open>except\<close> clauses of the outer \<^verbatim>\<open>try\<close> inside the loop: an interrupt calls
  \<^verbatim>\<open>keyboardInterrupt\<close> and \<^verbatim>\<open>keyboardInterruptHard\<close>; a bad message calls
  \<^verbatim>\<open>self.conn.disconnect()\<close>; anything else is not caught.
\<close>

fun handler :: "raised \<Rightarrow> loop_effect list \<times> flow" where
  "handler (Interrupt hard) =
     ([KeyboardInterrupt, KeyboardInterruptHard], if hard then Propagate else Continue)"
| "handler BadMessage = ([ConnDisconnect], Continue)"
| "handler Other = ([], Propagate)"

text \<open>The body of the loop, for one turn.\<close>

fun body :: "iteration \<Rightarrow> loop_effect list \<times> flow" where
  "body Oversized = ([WrapperError, Disconnect], Break)"
| "body (Frame None) = ([Decode], Continue)"
| "body (Frame (Some r)) = (Decode # fst (handler r), snd (handler r))"
| "body (Empty stale None) = (if stale then [Func] else [], Continue)"
| "body (Empty stale (Some r)) =
     (if stale then (Func # fst (handler r), snd (handler r)) else ([], Continue))"
| "body (GetRaised r) = handler r"

text \<open>
  The \<^verbatim>\<open>while\<close> loop over the turns of a run. A run whose turns end before the loop
  does has not left the loop: \<open>None\<close>.
\<close>

fun runnable_loop :: "turn list \<Rightarrow> loop_effect list \<Rightarrow> (exit \<times> loop_effect list) option" where
  "runnable_loop [] fx = None"
| "runnable_loop (Stop # rest) fx = Some (Finished, fx)"
| "runnable_loop (Turn it # rest) fx =
     (case snd (body it) of
        Continue \<Rightarrow> runnable_loop rest (fx @ fst (body it))
      | Break \<Rightarrow> Some (Broke, fx @ fst (body it))
      | Propagate \<Rightarrow> Some (Raised, fx @ fst (body it)))"

text \<open>\<^verbatim>\<open>runnable\<close>: the loop inside \<^verbatim>\<open>try\<close>, and \<^verbatim>\<open>finally: self.disconnect()\<close>.\<close>

definition runnable :: "turn list \<Rightarrow> (exit \<times> loop_effect list) option" where
  "runnable script =
     (case runnable_loop script [] of
        None \<Rightarrow> None
      | Some (ex, fx) \<Rightarrow> Some (ex, fx @ [Disconnect]))"

section \<open>Example sessions\<close>

text \<open>
  One enabled stock in the securities table; the server seeds the counters with 100 and
  answers the contract request 100 with matching details. With both subscriptions on, the
  market-data request gets id 101 and the historical request id 102.
\<close>

definition abc :: security where
  "abc = \<lparr>SubscriptionEnabled = True, Symbol = ''ABC'', ProductType = ''STK'',
           Exchange = ''NASDAQ''\<rparr>"

definition abc_details :: ContractDetails where
  "abc_details = \<lparr>summary = \<lparr>symbol = ''ABC'', secType = ''STK'', exchange = ''NASDAQ'',
       tradingClass = ''NMS'', lastTradeDateOrContractMonth = '''', localSymbol = ''ABC''\<rparr>,
     marketName = ''NMS''\<rparr>"

definition abc_seeded :: ibapp where
  "abc_seeded = fst (snd (nextValidId 100 (Some [abc]) (IbApp True True)))"

definition abc_session :: ibapp where
  "abc_session = fst (snd (contractDetails 100 abc_details abc_seeded))"

definition abc_bar :: BarData where
  "abc_bar = \<lparr>date = ''20180102'', open' = 10, high = 12, low = 9, close = 11,
               volume = 1000, barCount = 42\<rparr>"

text \<open>
  One enabled future, listed in the securities table under the name of its trading class;
  the server's contract has another symbol and matches through the market name.
\<close>

definition vx :: security where
  "vx = \<lparr>SubscriptionEnabled = True, Symbol = ''VX'', ProductType = ''FUT'',
          Exchange = ''CFE''\<rparr>"

definition vx_details :: ContractDetails where
  "vx_details = \<lparr>summary = \<lparr>symbol = ''VIX'', secType = ''FUT'', exchange = ''CFE'',
       tradingClass = ''VX'', lastTradeDateOrContractMonth = ''20180117'',
       localSymbol = ''VXF8''\<rparr>,
     marketName = ''VX''\<rparr>"

definition vx_seeded :: ibapp where
  "vx_seeded = fst (snd (nextValidId 100 (Some [vx]) (IbApp True True)))"

definition vx_session :: ibapp where
  "vx_session = fst (snd (contractDetails 100 vx_details vx_seeded))"

section \<open>Backoff: lemmas\<close>

lemma invocations_append: "invocations (xs @ ys) = invocations xs + invocations ys"
  by (induction xs rule: invocations.induct) auto

lemma slept_append: "slept (xs @ ys) = slept xs @ slept ys"
  by (induction xs rule: slept.induct) auto

lemma after_calls_Suc: "after_calls func (Suc n) w = snd (func (after_calls func n w))"
  by (induction n arbitrary: w) auto

lemma nth_result_shift: "nth_result func (snd (func w)) i = nth_result func w (Suc i)"
  by (simp add: nth_result_def)

text \<open>
  The loop, entered with no result after \<open>t\<close> retries, when the next \<open>j\<close> invocations
  give nothing and the one after gives \<open>v\<close>.
\<close>

lemma reliable_loop_success:
  assumes "t + j < 10"
    and "\<forall>i<j. nth_result func w i = None"
    and "nth_result func w j = Some v"
  shows "reliable_loop func None t w tr =
           (Some v, after_calls func (Suc j) w,
            tr @ concat (map (\<lambda>i. [Slept (2 ^ i), Invoked]) [Suc t..<t + j + 2]))"
  using assms
proof (induction j arbitrary: t w tr)
  case 0
  then have r: "fst (func w) = Some v"
    by (simp add: nth_result_def)
  have "reliable_loop func None t w tr =
          reliable_loop func (Some v) (t + 1) (snd (func w)) (tr @ [Slept (2 ^ (t + 1)), Invoked])"
    using 0 r by (subst reliable_loop.simps) simp
  also have "\<dots> = (Some v, snd (func w), tr @ [Slept (2 ^ (t + 1)), Invoked])"
    by (subst reliable_loop.simps) simp
  finally show ?case by simp
next
  case (Suc j)
  from Suc.prems have r: "fst (func w) = None"
    by (auto simp: nth_result_def dest: spec [of _ 0])
  have nones: "\<forall>i<j. nth_result func (snd (func w)) i = None"
    using Suc.prems by (simp add: nth_result_shift)
  have some: "nth_result func (snd (func w)) j = Some v"
    using Suc.prems by (simp add: nth_result_shift)
  have "reliable_loop func None t w tr =
          reliable_loop func None (Suc t) (snd (func w)) (tr @ [Slept (2 ^ Suc t), Invoked])"
    using Suc.prems r by (subst reliable_loop.simps) simp
  also have "\<dots> = (Some v, after_calls func (Suc j) (snd (func w)),
      (tr @ [Slept (2 ^ Suc t), Invoked])
        @ concat (map (\<lambda>i. [Slept (2 ^ i), Invoked]) [Suc (Suc t)..<Suc t + j + 2]))"
    using Suc.prems by (intro Suc.IH nones some) simp
  also have "[Suc t..<t + Suc j + 2] = Suc t # [Suc (Suc t)..<Suc t + j + 2]"
    by (simp add: upt_conv_Cons)
  then have "(tr @ [Slept (2 ^ Suc t), Invoked])
        @ concat (map (\<lambda>i. [Slept (2 ^ i), Invoked]) [Suc (Suc t)..<Suc t + j + 2])
      = tr @ concat (map (\<lambda>i. [Slept (2 ^ i), Invoked]) [Suc t..<t + Suc j + 2])"
    by simp
  finally show ?case by simp
qed

text \<open>The loop when every invocation left gives nothing: it stops at \<open>tries = 10\<close>.\<close>

lemma reliable_loop_exhausted:
  assumes "t \<le> 10"
    and "\<forall>i<10 - t. nth_result func w i = None"
  shows "reliable_loop func None t w tr =
           (None, after_calls func (10 - t) w,
            tr @ concat (map (\<lambda>i. [Slept (2 ^ i), Invoked]) [Suc t..<11]))"
  using assms
proof (induction "10 - t" arbitrary: t w tr)
  case 0
  then have "t = 10" by simp
  then show ?case by (subst reliable_loop.simps) simp
next
  case (Suc n)
  then have t: "t < 10" and n: "n = 10 - Suc t" by simp_all
  from Suc.prems t have r: "fst (func w) = None"
    by (auto simp: nth_result_def dest: spec [of _ 0])
  have nones: "\<forall>i<10 - Suc t. nth_result func (snd (func w)) i = None"
    using Suc.prems t by (simp add: nth_result_shift)
  have "reliable_loop func None t w tr =
          reliable_loop func None (Suc t) (snd (func w)) (tr @ [Slept (2 ^ Suc t), Invoked])"
    using t r by (subst reliable_loop.simps) simp
  also have "\<dots> = (None, after_calls func (10 - Suc t) (snd (func w)),
      (tr @ [Slept (2 ^ Suc t), Invoked])
        @ concat (map (\<lambda>i. [Slept (2 ^ i), Invoked]) [Suc (Suc t)..<11]))"
    using t by (intro Suc.hyps(1) n nones) simp
  also have "after_calls func (10 - Suc t) (snd (func w)) = after_calls func (10 - t) w"
  proof -
    have "10 - t = Suc (10 - Suc t)" using t by simp
    then show ?thesis by (simp only: after_calls.simps)
  qed
  also have "[Suc t..<11] = Suc t # [Suc (Suc t)..<11]"
    using t by (simp add: upt_conv_Cons)
  then have "(tr @ [Slept (2 ^ Suc t), Invoked])
        @ concat (map (\<lambda>i. [Slept (2 ^ i), Invoked]) [Suc (Suc t)..<11])
      = tr @ concat (map (\<lambda>i. [Slept (2 ^ i), Invoked]) [Suc t..<11])"
    by simp
  finally show ?case by simp
qed

lemma invocations_backoff:
  "invocations (concat (map (\<lambda>i. [Slept (2 ^ i), Invoked]) [a..<b])) = b - a"
  by (induction b) (auto simp: invocations_append)

lemma slept_backoff:
  "slept (concat (map (\<lambda>i. [Slept (2 ^ i), Invoked]) [a..<b])) = map (\<lambda>i. 2 ^ i) [a..<b]"
  by (induction b) (auto simp: slept_append)

lemma after_calls_stub: "after_calls (stub a) n w = w + n"
  by (induction n arbitrary: w) (auto simp: stub_def)

lemma nth_result_stub: "nth_result (stub a) w i = a (w + i)"
  by (simp add: nth_result_def after_calls_stub stub_def)

lemma sum_list_powers: "sum_list (map ((^) 2) [a..<Suc k]) = (\<Sum>i = a..k. (2::nat) ^ i)"
  by (simp add: interv_sum_list_conv_sum_set_nat atLeastLessThanSuc_atLeastAtMost del: upt_Suc)

lemma reliable_all_absent:
  assumes "\<forall>i<11. nth_result func w i = None"
  shows "reliable func w =
           (None, after_calls func 11 w,
            Invoked # concat (map (\<lambda>i. [Slept (2 ^ i), Invoked]) [1..<11]))"
proof -
  from assms have r: "fst (func w) = None"
    by (auto simp: nth_result_def dest: spec [of _ 0])
  have nones: "\<forall>i<10 - 0. nth_result func (snd (func w)) i = None"
    using assms by (simp add: nth_result_shift)
  have "after_calls func 11 w = after_calls func 10 (snd (func w))"
  proof -
    have "(11::nat) = Suc 10" by simp
    then show ?thesis by (simp only: after_calls.simps)
  qed
  with reliable_loop_exhausted [OF _ nones, of "[Invoked]"] r
  show ?thesis
    by (simp add: reliable_def)
qed

text \<open>
  Claim C3. For every \<open>k < 10\<close>: when the wrapped operation gives nothing on its first
  \<open>k\<close> invocations and a value on invocation \<open>k + 1\<close>, the wrapper returns that value
  after exactly \<open>k + 1\<close> invocations; before retry \<open>i\<close> (counted from 1) it sleeps
  \<open>2 ^ i\<close>, so it sleeps \<open>2 ^ 1 + ... + 2 ^ k\<close> in all.
\<close>

theorem reliable_value_after_k_absent:
  assumes "k < 10"
    and "\<forall>i<k. nth_result func w i = None"
    and "nth_result func w k = Some v"
  shows "reliable func w =
           (Some v, after_calls func (Suc k) w,
            Invoked # concat (map (\<lambda>i. [Slept (2 ^ i), Invoked]) [1..<Suc k]))
         \<and> invocations (snd (snd (reliable func w))) = k + 1
         \<and> slept (snd (snd (reliable func w))) = map (\<lambda>i. 2 ^ i) [1..<Suc k]
         \<and> sum_list (slept (snd (snd (reliable func w)))) = (\<Sum>i = 1..k. 2 ^ i)"
proof -
  have run: "reliable func w =
           (Some v, after_calls func (Suc k) w,
            Invoked # concat (map (\<lambda>i. [Slept (2 ^ i), Invoked]) [1..<Suc k]))"
  proof (cases k)
    case 0
    with assms(3) show ?thesis
      by (simp add: reliable_def nth_result_def)
  next
    case (Suc j)
    from assms(2) Suc have r: "fst (func w) = None"
      by (auto simp: nth_result_def dest: spec [of _ 0])
    have nones: "\<forall>i<j. nth_result func (snd (func w)) i = None"
      using assms(2) Suc by (simp add: nth_result_shift)
    have some: "nth_result func (snd (func w)) j = Some v"
      using assms(3) Suc by (simp add: nth_result_shift)
    have "0 + j < 10" using assms(1) Suc by simp
    from reliable_loop_success [OF this nones some, of "[Invoked]"] r Suc
    show ?thesis by (simp add: reliable_def)
  qed
  then show ?thesis
    by (simp add: invocations_backoff slept_backoff sum_list_powers del: upt_Suc)
qed

theorem reliable_value_after_k_absent_witness:
  "(3::nat) < 10
   \<and> map (nth_result (absent_then 3 (7::int)) 0) [0, 1, 2] = [None, None, None]
   \<and> nth_result (absent_then 3 (7::int)) 0 3 = Some 7
   \<and> reliable (absent_then 3 (7::int)) 0 =
        (Some 7, 4, [Invoked, Slept 2, Invoked, Slept 4, Invoked, Slept 8, Invoked])"
proof -
  have h1: "(3::nat) < 10" by simp
  have h2: "\<forall>i<3. nth_result (absent_then 3 (7::int)) 0 i = None"
    by (simp add: absent_then_def nth_result_stub)
  have h3: "nth_result (absent_then 3 (7::int)) 0 3 = Some 7"
    by (simp add: absent_then_def nth_result_stub)
  have "after_calls (absent_then 3 (7::int)) (Suc 3) 0 = 4"
    by (simp add: absent_then_def after_calls_stub)
  moreover have "[1..<Suc 3] = [1, 2, 3]" by (simp add: upt_rec)
  moreover have "map (nth_result (absent_then 3 (7::int)) 0) [0, 1, 2] = [None, None, None]"
    by (simp add: absent_then_def nth_result_stub)
  ultimately show ?thesis
    using h1 h3 reliable_value_after_k_absent [OF h1 h2 h3] by simp
qed

text \<open>
  Claim C2 says that on an operation that never gives a value the wrapper makes exactly 10
  attempts in all. The stub that is always absent has been invoked 11 times when the
  wrapper returns \<open>None\<close>.
\<close>

theorem reliable_ten_attempts_counterexample:
  "invocations (snd (snd (reliable always_absent 0))) = 11
   \<and> fst (reliable always_absent 0) = None"
proof -
  have "\<forall>i<11. nth_result always_absent 0 i = None"
    by (simp add: always_absent_def nth_result_stub)
  then show ?thesis
    by (simp add: reliable_all_absent invocations_backoff)
qed

text \<open>
  Claim C2, amended. When the wrapped operation gives nothing on each of its first 11
  invocations, the wrapper invokes it exactly 11 times (once, and 10 retries after sleeps
  of \<open>2, 4, ..., 1024\<close>, 2046 in all) and then returns \<open>None\<close>; it does not raise.
\<close>

theorem reliable_exhausted:
  assumes "\<forall>i<11. nth_result func w i = None"
  shows "reliable func w =
           (None, after_calls func 11 w,
            Invoked # concat (map (\<lambda>i. [Slept (2 ^ i), Invoked]) [1..<11]))
         \<and> invocations (snd (snd (reliable func w))) = 11
         \<and> slept (snd (snd (reliable func w))) = map (\<lambda>i. 2 ^ i) [1..<11]
         \<and> sum_list (slept (snd (snd (reliable func w)))) = 2046"
proof -
  have "sum_list (map (\<lambda>i. 2 ^ i) [1..<11]) = (2046::nat)"
    by (simp add: upt_rec)
  with reliable_all_absent [OF assms] show ?thesis
    by (simp add: invocations_backoff slept_backoff)
qed

theorem reliable_exhausted_witness:
  "map (nth_result always_absent 0) [0, 1, 2, 3, 4, 5, 6, 7, 8, 9, 10] = replicate 11 None
   \<and> reliable always_absent 0 =
        (None, 11, [Invoked, Slept 2, Invoked, Slept 4, Invoked, Slept 8, Invoked,
          Slept 16, Invoked, Slept 32, Invoked, Slept 64, Invoked, Slept 128, Invoked,
          Slept 256, Invoked, Slept 512, Invoked, Slept 1024, Invoked])"
proof -
  have h: "\<forall>i<11. nth_result always_absent 0 i = None"
    by (simp add: always_absent_def nth_result_stub)
  have "after_calls always_absent 11 0 = 11"
    by (simp add: always_absent_def after_calls_stub)
  moreover have "[1..<11] = [1, 2, 3, 4, 5, 6, 7, 8, 9, 10::nat]" by (simp add: upt_rec)
  moreover have
    "map (nth_result always_absent 0) [0, 1, 2, 3, 4, 5, 6, 7, 8, 9, 10] = replicate 11 None"
    by (simp add: always_absent_def nth_result_stub numeral_eq_Suc)
  ultimately show ?thesis
    using reliable_exhausted [OF h] by simp
qed

section \<open>Example sessions: lemmas\<close>

lemma abc_seeded_eq:
  "abc_seeded = \<lparr>subRealMD = True, subHistMD = True,
     nextValidOrderId = Some 100, nextValidReqId = Some 101,
     requestedContracts = [(100, start_contract abc)],
     requestedMarketData = [], requestedHistoricalData = [],
     marketDataLookup = [], historicalLookup = []\<rparr>"
  by (simp add: abc_seeded_def nextValidId_def start_def IbApp_def nextReqId_def abc_def)

lemma abc_session_eq:
  "abc_session = \<lparr>subRealMD = True, subHistMD = True,
     nextValidOrderId = Some 100, nextValidReqId = Some 103,
     requestedContracts = [(100, start_contract abc)],
     requestedMarketData = [(101, validated_contract abc_details)],
     requestedHistoricalData = [(102, validated_contract abc_details)],
     marketDataLookup = [(101, ''ABC'')], historicalLookup = [(102, ''ABC'')]\<rparr>"
  by (simp add: abc_session_def abc_seeded_eq contractDetails_def contractDetails_real_def
      contractDetails_hist_def nextReqId_def start_contract_def abc_def abc_details_def
      validated_contract_def Contract_def)


lemma vx_seeded_eq:
  "vx_seeded = \<lparr>subRealMD = True, subHistMD = True,
     nextValidOrderId = Some 100, nextValidReqId = Some 101,
     requestedContracts = [(100, start_contract vx)],
     requestedMarketData = [], requestedHistoricalData = [],
     marketDataLookup = [], historicalLookup = []\<rparr>"
  by (simp add: vx_seeded_def nextValidId_def start_def IbApp_def nextReqId_def vx_def)

lemma vx_session_eq:
  "vx_session = \<lparr>subRealMD = True, subHistMD = True,
     nextValidOrderId = Some 100, nextValidReqId = Some 103,
     requestedContracts = [(100, start_contract vx)],
     requestedMarketData = [(101, validated_contract vx_details)],
     requestedHistoricalData = [(102, validated_contract vx_details)],
     marketDataLookup = [(101, ''VXF8'')], historicalLookup = [(102, ''VXF8'')]\<rparr>"
  by (simp add: vx_session_def vx_seeded_eq contractDetails_def contractDetails_real_def
      contractDetails_hist_def nextReqId_def start_contract_def vx_def vx_details_def
      validated_contract_def Contract_def)

section \<open>Request-id allocator\<close>

lemma allocate_seeded:
  "nextValidReqId s = Some v \<Longrightarrow>
     allocate n s = (Inr (map (\<lambda>i. v + int i) [0..<n]), s\<lparr>nextValidReqId := Some (v + int n)\<rparr>)"
proof (induction n arbitrary: s v)
  case 0
  then show ?case by simp
next
  case (Suc n)
  have step: "nextReqId s = (Inr v, s\<lparr>nextValidReqId := Some (v + 1)\<rparr>)"
    using Suc.prems by (simp add: nextReqId_def)
  have "nextValidReqId (s\<lparr>nextValidReqId := Some (v + 1)\<rparr>) = Some (v + 1)" by simp
  from Suc.IH [OF this]
  have rest: "allocate n (s\<lparr>nextValidReqId := Some (v + 1)\<rparr>) =
      (Inr (map (\<lambda>i. v + 1 + int i) [0..<n]), s\<lparr>nextValidReqId := Some (v + 1 + int n)\<rparr>)"
    by simp
  have "map (\<lambda>i. v + int i) [0..<Suc n] = v # map (\<lambda>i. v + 1 + int i) [0..<n]"
    by (simp add: upt_conv_Cons map_Suc_upt [symmetric] add.assoc del: upt_Suc)
  with step rest show ?case
    by (simp add: add.assoc add.commute del: upt_Suc)
qed

lemma sorted_wrt_ids: "sorted_wrt (<) (map (\<lambda>i. v + int i) [0..<n])"
  by (simp add: sorted_wrt_map sorted_wrt_iff_nth_less del: upt_Suc)

text \<open>
  Claim C6. From a seeded counter \<open>v\<close>, any number \<open>n\<close> of calls of the allocator in
  a row return \<open>v, v + 1, ..., v + n - 1\<close>: each id is returned once, each is greater than
  every id returned before it, and the counter ends at \<open>v + n\<close>. Python's integers do not
  wrap.
\<close>

theorem nextReqId_strictly_increasing:
  assumes "nextValidReqId s = Some v"
  shows "allocate n s =
           (Inr (map (\<lambda>i. v + int i) [0..<n]), s\<lparr>nextValidReqId := Some (v + int n)\<rparr>)
         \<and> sorted_wrt (<) (map (\<lambda>i. v + int i) [0..<n])
         \<and> distinct (map (\<lambda>i. v + int i) [0..<n])"
  using allocate_seeded [OF assms, of n] sorted_wrt_ids [of v n]
  by (simp add: strict_sorted_iff del: upt_Suc)

theorem nextReqId_strictly_increasing_witness:
  "nextValidReqId abc_session = Some 103
   \<and> fst (allocate 3 abc_session) = Inr [103, 104, 105]
   \<and> nextValidReqId (snd (allocate 3 abc_session)) = Some 106
   \<and> sorted_wrt (<) [103, 104, 105 :: int]
   \<and> distinct [103, 104, 105 :: int]"
proof -
  have h: "nextValidReqId abc_session = Some 103"
    by (simp add: abc_session_eq)
  have "[0..<3] = [0, 1, 2]" by (simp add: upt_rec)
  with h nextReqId_strictly_increasing [OF h, of 3] show ?thesis by simp
qed

section \<open>Resync\<close>

lemma mktDataReqIds_append: "mktDataReqIds (xs @ ys) = mktDataReqIds xs @ mktDataReqIds ys"
  by (induction xs rule: mktDataReqIds.induct) auto

lemma histDataReqIds_append: "histDataReqIds (xs @ ys) = histDataReqIds xs @ histDataReqIds ys"
  by (induction xs rule: histDataReqIds.induct) auto

lemma mktDataReqIds_contracts:
  "mktDataReqIds (concat (map (\<lambda>(key, value).
      [ReqContractDetails key value, Log l t [AStr (symbol value)]]) al)) = []"
  by (induction al) auto

lemma histDataReqIds_contracts:
  "histDataReqIds (concat (map (\<lambda>(key, value).
      [ReqContractDetails key value, Log l t [AStr (symbol value)]]) al)) = []"
  by (induction al) auto

lemma mktDataReqIds_hist:
  "mktDataReqIds (concat (map (\<lambda>(key, value).
      [ReqHistoricalData key value a b c d e f g h, Log l t [AStr (symbol value)]]) al)) = []"
  by (induction al) auto

lemma histDataReqIds_hist:
  "histDataReqIds (concat (map (\<lambda>(key, value).
      [ReqHistoricalData key value a b c d e f g h, Log l t [AStr (symbol value)]]) al))
   = map fst al"
  by (induction al) auto

lemma mktDataReqIds_mkt:
  "mktDataReqIds (concat (map (\<lambda>(key, value).
      [ReqMktData key value a b c d, Log l t [AStr (symbol value)]]) al)) = map fst al"
  by (induction al) auto

lemma histDataReqIds_mkt:
  "histDataReqIds (concat (map (\<lambda>(key, value).
      [ReqMktData key value a b c d, Log l t [AStr (symbol value)]]) al)) = []"
  by (induction al) auto

text \<open>
  Claim C1 says that each re-request of the resync path carries a newly allocated request
  id, distinct from every id used before. In the example session the market-data entry is
  pending under id 101 and the historical entry under id 102, and the counter stands at
  103: \<^verbatim>\<open>verify\<close> re-requests under 101 and 102 again and leaves the counter at 103.
\<close>

theorem verify_reuses_ids_counterexample:
  "mktDataReqIds (snd (snd (verify abc_session))) = [101]
   \<and> histDataReqIds (snd (snd (verify abc_session))) = [102]
   \<and> map fst (requestedMarketData abc_session) = [101]
   \<and> map fst (requestedHistoricalData abc_session) = [102]
   \<and> nextValidReqId abc_session = Some 103
   \<and> nextValidReqId (fst (snd (verify abc_session))) = Some 103"
  by (simp add: verify_def abc_session_eq)

text \<open>
  Claim C1, amended. \<^verbatim>\<open>verify\<close> returns and changes no attribute. With real-time data
  on, it issues one market-data request for each entry of \<^verbatim>\<open>requestedMarketData\<close>, in
  the order of the dict and under the entry's own request id; with historical data on, one
  historical request for each entry of \<^verbatim>\<open>requestedHistoricalData\<close>, likewise. So with
  \<open>N\<close> and \<open>M\<close> entries and both flags set there are exactly \<open>N\<close> and \<open>M\<close>
  re-requests; no id is allocated.
\<close>

theorem verify_rerequests_pending:
  "fst (verify s) = Inr ()
   \<and> fst (snd (verify s)) = s
   \<and> mktDataReqIds (snd (snd (verify s))) =
       (if subRealMD s then map fst (requestedMarketData s) else [])
   \<and> histDataReqIds (snd (snd (verify s))) =
       (if subHistMD s then map fst (requestedHistoricalData s) else [])
   \<and> length (mktDataReqIds (snd (snd (verify s)))) =
       (if subRealMD s then length (requestedMarketData s) else 0)
   \<and> length (histDataReqIds (snd (snd (verify s)))) =
       (if subHistMD s then length (requestedHistoricalData s) else 0)"
  by (simp add: verify_def mktDataReqIds_append histDataReqIds_append
      mktDataReqIds_contracts histDataReqIds_contracts mktDataReqIds_hist histDataReqIds_hist
      mktDataReqIds_mkt histDataReqIds_mkt)

text \<open>
  Claim C10. \<^verbatim>\<open>verify\<close> leaves the state as it found it, so a second call right after
  the first, with no reply in between, issues the same requests again: nothing is
  deduplicated.
\<close>

theorem verify_twice_same_requests:
  "fst (snd (verify s)) = s
   \<and> verify (fst (snd (verify s))) = verify s
   \<and> snd (snd (verify (fst (snd (verify s))))) = snd (snd (verify s))"
  by (simp add: verify_def)

section \<open>Reply handlers\<close>

lemma map_of_None_iff: "map_of al k = None \<longleftrightarrow> k \<notin> fst ` set al"
  by (simp add: map_of_eq_None_iff)

text \<open>
  Claim C5. A \<^verbatim>\<open>contractDetails\<close> message whose request id is not a key of
  \<^verbatim>\<open>requestedContracts\<close> is answered by a warning (after the two lines every such
  message logs) and nothing else: the handler returns, every table and both counters are
  as before, and no request is issued.
\<close>

theorem contractDetails_unknown_reqId:
  assumes "reqId \<notin> fst ` set (requestedContracts s)"
  shows "contractDetails reqId cd s =
           (Inr (), s,
            [EWrapperAnswer ''contractDetails'',
             Log INFO ''contractDetails received %s '' [AContract (summary cd)],
             Log WARNING ''Unknown contractDetails reqId: %s'' [AInt reqId]])"
  using assms by (simp add: contractDetails_def map_of_None_iff [symmetric])

theorem contractDetails_unknown_reqId_witness:
  "999 \<notin> fst ` set (requestedContracts abc_session)
   \<and> contractDetails 999 abc_details abc_session =
           (Inr (), abc_session,
            [EWrapperAnswer ''contractDetails'',
             Log INFO ''contractDetails received %s '' [AContract (summary abc_details)],
             Log WARNING ''Unknown contractDetails reqId: %s'' [AInt 999]])"
proof -
  have h: "999 \<notin> fst ` set (requestedContracts abc_session)"
    by (simp add: abc_session_eq)
  from h contractDetails_unknown_reqId [OF h, of abc_details] show ?thesis by simp
qed

text \<open>
  Claim C7. A \<^verbatim>\<open>historicalData\<close> message whose request id is not a key of
  \<^verbatim>\<open>historicalLookup\<close>, and a \<^verbatim>\<open>tickPrice\<close> message whose id is not a key of
  \<^verbatim>\<open>marketDataLookup\<close>, raise \<^verbatim>\<open>KeyError\<close> before anything else happens: nothing is
  logged, no table entry is removed and the quotes table is not called.
\<close>

theorem lookup_miss_raises_KeyError:
  "(reqId \<notin> fst ` set (historicalLookup s) \<longrightarrow>
      historicalData db reqId bar s = (Inl KeyError, s, []))
   \<and> (tickerId \<notin> fst ` set (marketDataLookup s) \<longrightarrow>
      tickPrice tickerId tickType price s = (Inl KeyError, s, []))"
  by (simp add: historicalData_def tickPrice_def map_of_None_iff [symmetric])

theorem lookup_miss_raises_KeyError_witness:
  "999 \<notin> fst ` set (historicalLookup abc_session)
   \<and> historicalData (Updated ''{}'') 999 abc_bar abc_session = (Inl KeyError, abc_session, [])
   \<and> 999 \<notin> fst ` set (marketDataLookup abc_session)
   \<and> tickPrice 999 4 10 abc_session = (Inl KeyError, abc_session, [])"
proof -
  have h: "999 \<notin> fst ` set (historicalLookup abc_session)"
    "999 \<notin> fst ` set (marketDataLookup abc_session)"
    by (simp_all add: abc_session_eq)
  with lookup_miss_raises_KeyError
    [of 999 abc_session "Updated ''{}''" abc_bar 999 4 10]
  show ?thesis by simp
qed

text \<open>
  Claim C4 says that in every table from request ids to instruments the entry is removed by
  the terminal message of its stream. In the example session, \<^verbatim>\<open>historicalLookup\<close> still
  maps 102 to its symbol after the \<^verbatim>\<open>historicalData\<close> bar of request 102, and
  \<^verbatim>\<open>marketDataLookup\<close> still maps 101 after the first \<^verbatim>\<open>tickPrice\<close> of request 101.
\<close>

theorem lookup_entry_survives_counterexample:
  "fst (historicalData (Updated ''{}'') 102 abc_bar abc_session) = Inr ()
   \<and> map_of (historicalLookup (fst (snd (historicalData (Updated ''{}'') 102 abc_bar abc_session))))
        102 = Some ''ABC''
   \<and> fst (tickPrice 101 4 10 abc_session) = Inr ()
   \<and> map_of (marketDataLookup (fst (snd (tickPrice 101 4 10 abc_session)))) 101 = Some ''ABC''"
  by (simp add: historicalData_def tickPrice_def abc_session_eq)

text \<open>
  Claim C4, amended. The three tables of pending requests lose the entry:
  \<^verbatim>\<open>contractDetailsEnd\<close> leaves no entry for its id in \<^verbatim>\<open>requestedContracts\<close>; a
  \<^verbatim>\<open>historicalData\<close> bar that is handled without error leaves none in
  \<^verbatim>\<open>requestedHistoricalData\<close>; a \<^verbatim>\<open>tickPrice\<close> that is handled without error leaves
  none in \<^verbatim>\<open>requestedMarketData\<close>. The two tables from ids to symbols,
  \<^verbatim>\<open>historicalLookup\<close> and \<^verbatim>\<open>marketDataLookup\<close>, are left as they were.
\<close>

theorem pending_entry_removed:
  "reqId \<notin> fst ` set (requestedContracts (fst (snd (contractDetailsEnd reqId s))))
   \<and> (fst (historicalData db reqId bar s) = Inr () \<longrightarrow>
        reqId \<notin> fst ` set (requestedHistoricalData (fst (snd (historicalData db reqId bar s))))
        \<and> historicalLookup (fst (snd (historicalData db reqId bar s))) = historicalLookup s)
   \<and> (fst (tickPrice reqId tickType price s) = Inr () \<longrightarrow>
        reqId \<notin> fst ` set (requestedMarketData (fst (snd (tickPrice reqId tickType price s))))
        \<and> marketDataLookup (fst (snd (tickPrice reqId tickType price s))) = marketDataLookup s)"
proof -
  have del: "\<And>al :: (int \<times> contract) list.
      reqId \<notin> fst ` set (if map_of al reqId \<noteq> None then AList.delete reqId al else al)"
    by (simp add: map_of_None_iff delete_notin_dom)
  have c: "reqId \<notin> fst ` set (requestedContracts (fst (snd (contractDetailsEnd reqId s))))"
    using del [of "requestedContracts s"]
    by (simp add: contractDetailsEnd_def split: if_splits)
  have h: "fst (historicalData db reqId bar s) = Inr () \<Longrightarrow>
        reqId \<notin> fst ` set (requestedHistoricalData (fst (snd (historicalData db reqId bar s))))
        \<and> historicalLookup (fst (snd (historicalData db reqId bar s))) = historicalLookup s"
    using del [of "requestedHistoricalData s"]
    by (simp add: historicalData_def split: option.splits if_splits)
  have t: "fst (tickPrice reqId tickType price s) = Inr () \<Longrightarrow>
        reqId \<notin> fst ` set (requestedMarketData (fst (snd (tickPrice reqId tickType price s))))
        \<and> marketDataLookup (fst (snd (tickPrice reqId tickType price s))) = marketDataLookup s"
    using del [of "requestedMarketData s"]
    by (simp add: tickPrice_def split: option.splits if_splits)
  from c h t show ?thesis by blast
qed

theorem pending_entry_removed_witness:
  "100 \<in> fst ` set (requestedContracts abc_session)
   \<and> 100 \<notin> fst ` set (requestedContracts (fst (snd (contractDetailsEnd 100 abc_session))))
   \<and> fst (historicalData (Updated ''{}'') 102 abc_bar abc_session) = Inr ()
   \<and> 102 \<in> fst ` set (requestedHistoricalData abc_session)
   \<and> 102 \<notin> fst ` set (requestedHistoricalData
        (fst (snd (historicalData (Updated ''{}'') 102 abc_bar abc_session))))
   \<and> fst (tickPrice 101 4 10 abc_session) = Inr ()
   \<and> 101 \<in> fst ` set (requestedMarketData abc_session)
   \<and> 101 \<notin> fst ` set (requestedMarketData (fst (snd (tickPrice 101 4 10 abc_session))))"
proof -
  have h: "fst (historicalData (Updated ''{}'') 102 abc_bar abc_session) = Inr ()"
    by (simp add: historicalData_def abc_session_eq)
  have t: "fst (tickPrice 101 4 10 abc_session) = Inr ()"
    by (simp add: tickPrice_def abc_session_eq)
  have m: "100 \<in> fst ` set (requestedContracts abc_session)"
    "102 \<in> fst ` set (requestedHistoricalData abc_session)"
    "101 \<in> fst ` set (requestedMarketData abc_session)"
    by (simp_all add: abc_session_eq)
  from pending_entry_removed [of 100 abc_session "Updated ''{}''" abc_bar 4 10]
  have a: "100 \<notin> fst ` set (requestedContracts (fst (snd (contractDetailsEnd 100 abc_session))))"
    by blast
  from pending_entry_removed [of 102 abc_session "Updated ''{}''" abc_bar 4 10] h
  have b: "102 \<notin> fst ` set (requestedHistoricalData
        (fst (snd (historicalData (Updated ''{}'') 102 abc_bar abc_session))))"
    by blast
  from pending_entry_removed [of 101 abc_session "Updated ''{}''" abc_bar 4 10] t
  have c: "101 \<notin> fst ` set (requestedMarketData (fst (snd (tickPrice 101 4 10 abc_session))))"
    by blast
  from h t m a b c show ?thesis by blast
qed

section \<open>Trading class\<close>

lemma contractDetailsReqs_append:
  "contractDetailsReqs (xs @ ys) = contractDetailsReqs xs @ contractDetailsReqs ys"
  by (induction xs rule: contractDetailsReqs.induct) auto

lemma start_loop_requests:
  "nextValidReqId s = Some v \<Longrightarrow>
     contractDetailsReqs (snd (snd (start_loop secs s fx))) =
       contractDetailsReqs fx @ map start_contract (filter SubscriptionEnabled secs)"
proof (induction secs arbitrary: s v fx)
  case Nil
  then show ?case by simp
next
  case (Cons sec secs)
  show ?case
  proof (cases "SubscriptionEnabled sec")
    case False
    with Cons show ?thesis by simp
  next
    case True
    let ?s' = "s\<lparr>nextValidReqId := Some (v + 1),
                  requestedContracts := AList.update v (start_contract sec) (requestedContracts s)\<rparr>"
    have "nextValidReqId ?s' = Some (v + 1)" by simp
    from Cons.IH [OF this, of "fx @ [ReqContractDetails v (start_contract sec)]"] True Cons.prems
    show ?thesis
      by (simp add: nextReqId_def contractDetailsReqs_append)
  qed
qed

lemma set_update_subset: "set (AList.update k v al) \<subseteq> insert (k, v) (set al)"
  by (induction al) auto

lemma contractDetails_real_entries:
  "(k, c) \<in> set (requestedMarketData (fst (snd (contractDetails_real contract validated s))))
    \<Longrightarrow> (k, c) \<in> set (requestedMarketData s) \<or> c = validated"
  using set_update_subset [of _ validated "requestedMarketData s"]
  by (auto simp: contractDetails_real_def nextReqId_def split: if_splits option.splits)

lemma contractDetails_real_hist:
  "requestedHistoricalData (fst (snd (contractDetails_real contract validated s)))
     = requestedHistoricalData s"
  by (auto simp: contractDetails_real_def nextReqId_def split: if_splits option.splits)

lemma contractDetails_hist_entries:
  "(k, c) \<in> set (requestedHistoricalData (fst (snd (contractDetails_hist validated s))))
    \<Longrightarrow> (k, c) \<in> set (requestedHistoricalData s) \<or> c = validated"
  using set_update_subset [of _ validated "requestedHistoricalData s"]
  by (auto simp: contractDetails_hist_def nextReqId_def split: if_splits option.splits)

lemma contractDetails_hist_mkt:
  "requestedMarketData (fst (snd (contractDetails_hist validated s))) = requestedMarketData s"
  by (auto simp: contractDetails_hist_def nextReqId_def split: if_splits option.splits)

lemma contractDetails_state:
  "fst (snd (contractDetails reqId cd s)) = s
   \<or> (\<exists>contract. fst (snd (contractDetails reqId cd s)) =
         fst (snd (contractDetails_real contract (validated_contract cd) s)))
   \<or> (\<exists>contract. fst (snd (contractDetails reqId cd s)) =
         fst (snd (contractDetails_hist (validated_contract cd)
           (fst (snd (contractDetails_real contract (validated_contract cd) s))))))"
proof (cases "map_of (requestedContracts s) reqId")
  case None
  then show ?thesis by (simp add: contractDetails_def)
next
  case (Some contract)
  show ?thesis
  proof (cases "symbol contract = symbol (summary cd) \<or> symbol contract = marketName cd")
    case False
    with Some show ?thesis by (simp add: contractDetails_def)
  next
    case True
    obtain r1 s1 fx1
      where real: "contractDetails_real contract (validated_contract cd) s = (r1, s1, fx1)"
      by (cases "contractDetails_real contract (validated_contract cd) s")
    obtain r2 s2 fx2
      where hist: "contractDetails_hist (validated_contract cd) s1 = (r2, s2, fx2)"
      by (cases "contractDetails_hist (validated_contract cd) s1")
    show ?thesis
    proof (cases r1)
      case (Inl e)
      with Some True real have "fst (snd (contractDetails reqId cd s)) = s1"
        by (simp add: contractDetails_def)
      moreover have "s1 = fst (snd (contractDetails_real contract (validated_contract cd) s))"
        using real by simp
      ultimately show ?thesis by blast
    next
      case (Inr u)
      with Some True real hist have "fst (snd (contractDetails reqId cd s)) = s2"
        by (simp add: contractDetails_def)
      moreover have "s2 = fst (snd (contractDetails_hist (validated_contract cd)
           (fst (snd (contractDetails_real contract (validated_contract cd) s)))))"
        using real hist by simp
      ultimately show ?thesis by blast
    qed
  qed
qed

lemma contractDetails_entries:
  assumes "(k, c) \<in> set (requestedMarketData (fst (snd (contractDetails reqId cd s))))
           \<or> (k, c) \<in> set (requestedHistoricalData (fst (snd (contractDetails reqId cd s))))"
  shows "(k, c) \<in> set (requestedMarketData s) \<or> (k, c) \<in> set (requestedHistoricalData s)
         \<or> c = validated_contract cd"
  using assms contractDetails_state [of reqId cd s]
    contractDetails_real_entries contractDetails_hist_entries
  by (metis contractDetails_real_hist contractDetails_hist_mkt)

text \<open>
  Claim C8 says that a future has its trading class equal to its symbol after validation.
  In the example session of the future, the contract that \<^verbatim>\<open>contractDetails\<close> validated
  and stored under the ids 101 and 102 has the product type \<^verbatim>\<open>FUT\<close>, the symbol
  \<^verbatim>\<open>VIX\<close> and the trading class \<^verbatim>\<open>VX\<close>.
\<close>

theorem validated_future_tradingClass_counterexample:
  "map_of (requestedMarketData vx_session) 101 = Some (validated_contract vx_details)
   \<and> map_of (requestedHistoricalData vx_session) 102 = Some (validated_contract vx_details)
   \<and> secType (validated_contract vx_details) = ''FUT''
   \<and> symbol (validated_contract vx_details) = ''VIX''
   \<and> tradingClass (validated_contract vx_details) = ''VX''"
  by (simp add: vx_session_eq validated_contract_def vx_details_def)

text \<open>
  Claim C8, amended. \<^verbatim>\<open>start\<close>, on a seeded counter, requests the contract details
  of each enabled item of the securities table, and in the contract it builds for an item
  the trading class is the item's symbol when the product type is \<^verbatim>\<open>FUT\<close> and is left
  empty, as the constructor made it, otherwise. The contract that \<^verbatim>\<open>contractDetails\<close>
  validates and enters in \<^verbatim>\<open>requestedMarketData\<close> and \<^verbatim>\<open>requestedHistoricalData\<close>
  has the symbol, the product type and the trading class of the server's reply, whatever
  the product type.
\<close>

theorem start_future_tradingClass:
  assumes "nextValidReqId s = Some v"
  shows "contractDetailsReqs (snd (snd (start (Some secs) s))) =
           map start_contract (filter SubscriptionEnabled secs)
         \<and> (\<forall>sec \<in> set secs.
              symbol (start_contract sec) = Symbol sec
              \<and> secType (start_contract sec) = ProductType sec
              \<and> tradingClass (start_contract sec) =
                  (if ProductType sec = ''FUT'' then Symbol sec else ''''))
         \<and> (\<forall>(k, c) \<in> set (requestedMarketData (fst (snd (contractDetails reqId cd s))))
                \<union> set (requestedHistoricalData (fst (snd (contractDetails reqId cd s)))).
              (k, c) \<in> set (requestedMarketData s) \<union> set (requestedHistoricalData s)
              \<or> (symbol c = symbol (summary cd) \<and> secType c = secType (summary cd)
                  \<and> tradingClass c = tradingClass (summary cd)))"
proof -
  have a: "contractDetailsReqs (snd (snd (start (Some secs) s))) =
           map start_contract (filter SubscriptionEnabled secs)"
    using start_loop_requests [OF assms] by (simp add: start_def)
  have b: "\<forall>sec \<in> set secs.
              symbol (start_contract sec) = Symbol sec
              \<and> secType (start_contract sec) = ProductType sec
              \<and> tradingClass (start_contract sec) =
                  (if ProductType sec = ''FUT'' then Symbol sec else '''')"
    by (simp add: start_contract_def Contract_def)
  have v: "symbol (validated_contract cd) = symbol (summary cd)
      \<and> secType (validated_contract cd) = secType (summary cd)
      \<and> tradingClass (validated_contract cd) = tradingClass (summary cd)"
    by (simp add: validated_contract_def)
  have c: "\<forall>(k, c) \<in> set (requestedMarketData (fst (snd (contractDetails reqId cd s))))
                \<union> set (requestedHistoricalData (fst (snd (contractDetails reqId cd s)))).
              (k, c) \<in> set (requestedMarketData s) \<union> set (requestedHistoricalData s)
              \<or> (symbol c = symbol (summary cd) \<and> secType c = secType (summary cd)
                  \<and> tradingClass c = tradingClass (summary cd))"
    using contractDetails_entries [of _ _ reqId cd s] v by fastforce
  from a b c show ?thesis by blast
qed

theorem start_future_tradingClass_witness:
  "nextValidReqId abc_seeded = Some 101
   \<and> contractDetailsReqs (snd (snd (start (Some [vx, abc]) abc_seeded))) =
       [start_contract vx, start_contract abc]
   \<and> symbol (start_contract vx) = ''VX''
   \<and> secType (start_contract vx) = ''FUT''
   \<and> tradingClass (start_contract vx) = ''VX''
   \<and> secType (start_contract abc) = ''STK''
   \<and> tradingClass (start_contract abc) = []"
proof -
  have h: "nextValidReqId abc_seeded = Some 101"
    by (simp add: abc_seeded_eq)
  have e: "SubscriptionEnabled vx" "SubscriptionEnabled abc"
    "Symbol vx = ''VX''" "ProductType vx = ''FUT''" "ProductType abc = ''STK''"
    by (simp_all add: vx_def abc_def)
  from start_future_tradingClass [OF h, of "[vx, abc]" 100 abc_details] h e
  show ?thesis by simp
qed

section \<open>Message loop\<close>

lemma count_handler: "count_list (fst (handler r)) Disconnect = 0"
  by (cases r) auto

lemma handler_flow: "snd (handler r) \<noteq> Break"
  by (cases r) auto

lemma count_body:
  "count_list (fst (body it)) Disconnect = (if snd (body it) = Break then 1 else 0)"
  by (induction it rule: body.induct) (auto simp: count_handler handler_flow split: if_splits)

lemma runnable_loop_count:
  "runnable_loop script fx = Some (ex, fx') \<Longrightarrow>
     count_list fx' Disconnect = count_list fx Disconnect + (if ex = Broke then 1 else 0)"
proof (induction script fx rule: runnable_loop.induct)
  case (1 fx)
  then show ?case by simp
next
  case (2 rest fx)
  then show ?case by auto
next
  case (3 it rest fx)
  then show ?case
    by (cases "snd (body it)") (auto simp: count_body)
qed

text \<open>
  Claim C9 says that \<^verbatim>\<open>disconnect\<close> is invoked exactly once however the loop ends. On a
  frame that is too long the body calls \<^verbatim>\<open>self.disconnect()\<close> and breaks, and the
  \<^verbatim>\<open>finally\<close> clause calls it again: twice.
\<close>

theorem runnable_oversized_disconnects_twice_counterexample:
  "runnable [Turn Oversized] = Some (Broke, [WrapperError, Disconnect, Disconnect])"
  by (simp add: runnable_def)

text \<open>
  Claim C9, amended. Every run of \<^verbatim>\<open>runnable\<close> that leaves the loop, by a false loop
  condition, by the break on a frame that is too long or by an exception that is not
  caught, ends with the call \<^verbatim>\<open>self.disconnect()\<close> of the \<^verbatim>\<open>finally\<close> clause. Before
  it \<^verbatim>\<open>self.disconnect()\<close> has been called once when the loop ended on the break and not
  at all otherwise: twice in all after a frame that is too long, once in every other case.
\<close>

theorem runnable_disconnects_on_exit:
  assumes "runnable script = Some (ex, fx)"
  shows "fx \<noteq> [] \<and> last fx = Disconnect
         \<and> count_list (butlast fx) Disconnect = (if ex = Broke then 1 else 0)
         \<and> count_list fx Disconnect = (if ex = Broke then 2 else 1)"
proof -
  from assms obtain fx' where l: "runnable_loop script [] = Some (ex, fx')"
    and fx: "fx = fx' @ [Disconnect]"
    by (auto simp: runnable_def split: option.splits)
  from runnable_loop_count [OF l] fx show ?thesis by simp
qed

theorem runnable_disconnects_on_exit_witness:
  "runnable [Turn (Frame None), Turn (Empty True None), Turn (Frame (Some BadMessage)), Stop]
     = Some (Finished, [Decode, Func, Decode, ConnDisconnect, Disconnect])
   \<and> count_list [Decode, Func, Decode, ConnDisconnect, Disconnect] Disconnect = 1
   \<and> runnable [Turn (GetRaised (Interrupt False)), Turn Oversized]
     = Some (Broke, [KeyboardInterrupt, KeyboardInterruptHard, WrapperError, Disconnect, Disconnect])
   \<and> runnable [Turn (Frame (Some Other))] = Some (Raised, [Decode, Disconnect])"
proof -
  have r: "runnable [Turn (Frame None), Turn (Empty True None), Turn (Frame (Some BadMessage)), Stop]
     = Some (Finished, [Decode, Func, Decode, ConnDisconnect, Disconnect])"
    by (simp add: runnable_def)
  from runnable_disconnects_on_exit [OF r] r show ?thesis
    by (simp add: runnable_def)
qed

end
